theory Spec2Isabelle
  imports Complex_Main "HOL-Library.Log_Nat" "HOL-Library.List_Lexorder" "HOL-Library.Multiset"
begin

section \<open>Text values\<close>

text \<open>
  A Python \<open>str\<close> is a sequence of Unicode code points, and the labels of the data set
  are Korean text, so a string is modelled as the list of its code points (natural
  numbers), not as a list of 8-bit characters. Equality of two such lists is Python's
  \<open>==\<close> on \<open>str\<close>, and the lexicographic order of lists is Python's \<open><\<close> on \<open>str\<close>.
\<close>

type_synonym ustring = "nat list"

text \<open>
  The class \<open>\d\<close> of a Python 3 \<open>str\<close> pattern is the Unicode category Nd. Its members
  come in runs of ten consecutive code points (zero to nine of one script); the table
  lists the first code point of each run (Unicode 14.0). The run at 48 is ASCII \<open>0-9\<close>.
\<close>

definition nd_starts :: "nat list" where
  "nd_starts = [48, 1632, 1776, 1984, 2406, 2534, 2662, 2790, 2918, 3046, 3174, 3302,
     3430, 3558, 3664, 3792, 3872, 4160, 4240, 6112, 6160, 6470, 6608, 6784, 6800, 6992,
     7088, 7232, 7248, 42528, 43216, 43264, 43472, 43504, 43600, 44016, 65296, 66720,
     68912, 69734, 69872, 69942, 70096, 70384, 70736, 70864, 71248, 71360, 71472, 71904,
     72016, 72784, 73040, 73120, 92768, 92864, 93008, 120782, 120792, 120802, 120812,
     120822, 123200, 123632, 125264, 130032]"

definition is_digit :: "nat \<Rightarrow> bool" where
  "is_digit c = list_ex (\<lambda>s. s \<le> c \<and> c < s + 10) nd_starts"

text \<open>
  The separators of \<open>str.split()\<close> without arguments are the code points for which
  \<open>str.isspace\<close> holds.
\<close>

definition is_space :: "nat \<Rightarrow> bool" where
  "is_space c = (c \<in> set [9, 10, 11, 12, 13, 28, 29, 30, 31, 32, 133, 160, 5760,
     8192, 8193, 8194, 8195, 8196, 8197, 8198, 8199, 8200, 8201, 8202, 8232, 8233, 8239,
     8287, 12288])"

definition newline :: nat where
  "newline = 10"

section \<open>Region names\<close>

text \<open>
  A cell of the region column holds a string or, where the file has no text there, some
  other object (pandas puts a float NaN).
\<close>

datatype 'a label = Str ustring | NonStr 'a

definition strip_digits :: "ustring \<Rightarrow> ustring" where
  "strip_digits s = rev (dropWhile is_digit (rev s))"

text \<open>
  \<open>re.sub(r'\d+$', '', text)\<close>. Without the MULTILINE flag \<open>$\<close> matches at the end of
  the string and also just before a newline that is the last character. So the run of
  digits that is removed ends at the end of the text, or directly before a final
  newline; the scan finds at most one match.
\<close>

definition re_sub_digits :: "ustring \<Rightarrow> ustring" where
  "re_sub_digits s =
     (if s \<noteq> [] \<and> last s = newline then strip_digits (butlast s) @ [newline]
      else strip_digits s)"

fun clean_region :: "'a label \<Rightarrow> 'a label" where
  "clean_region (Str s) = Str (re_sub_digits s)"
| "clean_region (NonStr v) = NonStr v"

datatype py_error = IndexError | AttributeError | ZeroDivisionError

text \<open>\<open>text.split()\<close>: the maximal runs of non-separators, in order.\<close>

fun split_acc :: "ustring \<Rightarrow> ustring \<Rightarrow> ustring list" where
  "split_acc cur [] = (if cur = [] then [] else [cur])"
| "split_acc cur (c # cs) =
     (if is_space c then (if cur = [] then split_acc [] cs else cur # split_acc [] cs)
      else split_acc (cur @ [c]) cs)"

definition py_split :: "ustring \<Rightarrow> ustring list" where
  "py_split s = split_acc [] s"

text \<open>
  \<open>lambda x: x.split()[0]\<close>: indexing an empty list raises IndexError, and an object
  that is not a string has no \<open>split\<close>.
\<close>

fun province :: "'a label \<Rightarrow> py_error + ustring" where
  "province (Str s) = (case py_split s of [] \<Rightarrow> Inl IndexError | t # _ \<Rightarrow> Inr t)"
| "province (NonStr v) = Inl AttributeError"

section \<open>Float arithmetic\<close>

text \<open>
  The rates and the predicted numbers are Python floats, that is IEEE 754 binary64
  values. A finite binary64 value is a rational number, and every operation returns the
  exact result rounded to the nearest value with a significand of 53 bits, a tie going
  to the even significand. The exponent range is not modelled: all values that occur
  below lie far inside it (no overflow, no subnormal numbers).
\<close>

definition ilog2 :: "rat \<Rightarrow> int" where
  "ilog2 x = (if 1 \<le> x then bitlen \<lfloor>x\<rfloor> - 1 else - bitlen (\<lceil>1 / x\<rceil> - 1))"

definition rne :: "rat \<Rightarrow> int" where
  "rne m = (let f = \<lfloor>m\<rfloor>; r = m - of_int f
            in if r < 1 / 2 then f else if 1 / 2 < r then f + 1
               else if even f then f else f + 1)"

definition fl :: "rat \<Rightarrow> rat" where
  "fl x = (if x = 0 then 0
           else let e = ilog2 \<bar>x\<bar> - 52
                in sgn x * of_int (rne (\<bar>x\<bar> / 2 powi e)) * 2 powi e)"

text \<open>Python's \<open>a / b\<close> on floats raises ZeroDivisionError for a zero divisor.\<close>

definition py_truediv :: "rat \<Rightarrow> rat \<Rightarrow> py_error + rat" where
  "py_truediv a b = (if b = 0 then Inl ZeroDivisionError else Inr (fl (a / b)))"

text \<open>
  The sum of a float column, accumulated from left to right starting at \<open>0.0\<close>.
\<close>

definition fsum :: "rat list \<Rightarrow> rat" where
  "fsum xs = foldl (\<lambda>s x. fl (s + x)) 0 xs"

section \<open>Records\<close>

text \<open>
  One row of the source table, with the columns the program reads: the region label
  (column U+C0AC U+ACE0 U+B2E4 U+BC1C U+C9C0 U+C5ED U+C2DC U+B3C4 U+C2DC U+AD70 U+AD6C),
  the location name, the accident type, the accident count, latitude and longitude.
\<close>

record 'a accident_record =
  region_label :: "'a label"
  location_name :: ustring
  accident_type :: ustring
  accident_count :: int
  latitude :: "rat option"
  longitude :: "rat option"

text \<open>
  The row after \<open>preprocess_and_analyze\<close>, with the added columns \<open>region_clean\<close>,
  the province (column U+C2DC U+B3C4, here \<open>sido\<close>), \<open>proposed_strategy\<close>,
  \<open>reduction_rate\<close>, \<open>predicted_reduction\<close> and \<open>predicted_remaining\<close>.
\<close>

record 'a derived_record = "'a accident_record" +
  region_clean :: "'a label"
  sido :: ustring
  proposed_strategy :: ustring
  reduction_rate :: rat
  predicted_reduction :: rat
  predicted_remaining :: rat

section \<open>Strategy table\<close>

text \<open>The four keys of \<open>strategy_map\<close>, as code points.\<close>

definition school_zone_child :: ustring where
  "school_zone_child = [49828, 53224, 51316, 50612, 47536, 51060]"

definition pedestrian_child :: ustring where
  "pedestrian_child = [48372, 54665, 50612, 47536, 51060]"

definition pedestrian_elderly :: ustring where
  "pedestrian_elderly = [48372, 54665, 45432, 51064]"

definition bicycle :: ustring where
  "bicycle = [51088, 51204, 44144]"

text \<open>The strategy texts, as code points.\<close>

definition strategy_school_zone :: ustring where
  "strategy_school_zone = [49828, 53224, 51316, 32, 44284, 49549, 45800, 49549, 47,
     49884, 51064, 49457, 32, 44053, 54868]"

definition strategy_pedestrian_child :: ustring where
  "strategy_pedestrian_child = [48372, 54665, 47196, 32, 54172, 49828, 32, 48143, 32,
     50504, 51204, 44368, 50977]"

definition strategy_pedestrian_elderly :: ustring where
  "strategy_pedestrian_elderly = [45432, 51064, 48372, 54840, 44396, 50669, 32, 48143,
     32, 54945, 45800, 48372, 46020, 32, 44060, 49440]"

definition strategy_bicycle :: ustring where
  "strategy_bicycle = [51088, 51204, 44144, 32, 51204, 50857, 46020, 47196, 32, 48143,
     32, 44368, 52264, 47196, 32, 44060, 49440]"

definition strategy_general :: ustring where
  "strategy_general = [51068, 48152, 32, 50504, 51204, 32, 51216, 44160]"

text \<open>
  The dictionary \<open>strategy_map\<close>. A float literal such as \<open>0.30\<close> denotes the binary64
  value nearest to the decimal.
\<close>

definition strategy_map :: "(ustring \<times> (ustring \<times> rat)) list" where
  "strategy_map =
     [(school_zone_child, (strategy_school_zone, fl (30 / 100))),
      (pedestrian_child, (strategy_pedestrian_child, fl (25 / 100))),
      (pedestrian_elderly, (strategy_pedestrian_elderly, fl (20 / 100))),
      (bicycle, (strategy_bicycle, fl (25 / 100)))]"

text \<open>\<open>strategy_map.get(key, default)\<close> of \<open>apply_strategy\<close>.\<close>

definition apply_strategy :: "ustring \<Rightarrow> ustring \<times> rat" where
  "apply_strategy t =
     (case map_of strategy_map t of
        Some st_info \<Rightarrow> st_info
      | None \<Rightarrow> (strategy_general, fl (10 / 100)))"

section \<open>Preprocessing\<close>

text \<open>
  The new columns of one row. The count is an integer column and the rate a float
  column, so the count is converted to a float before the product and the difference.
\<close>

definition derive_row :: "'a accident_record \<Rightarrow> py_error + 'a derived_record" where
  "derive_row r =
     (let rc = clean_region (region_label r)
      in case province rc of
           Inl e \<Rightarrow> Inl e
         | Inr p \<Rightarrow>
             (let (strategy, rate) = apply_strategy (accident_type r);
                  cnt = fl (of_int (accident_count r));
                  reduction = fl (cnt * rate)
              in Inr \<lparr>region_label = region_label r, location_name = location_name r,
                      accident_type = accident_type r, accident_count = accident_count r,
                      latitude = latitude r, longitude = longitude r,
                      region_clean = rc, sido = p, proposed_strategy = strategy,
                      reduction_rate = rate, predicted_reduction = reduction,
                      predicted_remaining = fl (cnt - reduction)\<rparr>))"

text \<open>Applying a function that can raise to every row: the first error ends the run.\<close>

fun apply_rows :: "('r \<Rightarrow> py_error + 'd) \<Rightarrow> 'r list \<Rightarrow> py_error + 'd list" where
  "apply_rows f [] = Inr []"
| "apply_rows f (r # rs) =
     (case f r of
        Inl e \<Rightarrow> Inl e
      | Inr d \<Rightarrow> (case apply_rows f rs of Inl e \<Rightarrow> Inl e | Inr ds \<Rightarrow> Inr (d # ds)))"

definition preprocess_and_analyze :: "'a accident_record list \<Rightarrow> py_error + 'a derived_record list" where
  "preprocess_and_analyze df = apply_rows derive_row df"

section \<open>Filters\<close>

text \<open>The entry of the province select box that stands for all provinces.\<close>

definition all_sido :: ustring where
  "all_sido = [51204, 52404]"

definition filter_sido :: "'a derived_record list \<Rightarrow> ustring \<Rightarrow> 'a derived_record list" where
  "filter_sido df selected_sido =
     (if selected_sido \<noteq> all_sido then filter (\<lambda>r. sido r = selected_sido) df else df)"

text \<open>
  The options of the type selection, which is also its default: the distinct accident
  types of the table filtered by province, sorted.
\<close>

definition type_list :: "'a derived_record list \<Rightarrow> ustring list" where
  "type_list df = sort (remdups (map accident_type df))"

text \<open>\<open>if selected_types:\<close> is false for the empty list, and then no row is removed.\<close>

definition filter_types :: "'a derived_record list \<Rightarrow> ustring list \<Rightarrow> 'a derived_record list" where
  "filter_types df selected_types =
     (if selected_types \<noteq> [] then filter (\<lambda>r. accident_type r \<in> set selected_types) df
      else df)"

definition filtered_df :: "'a derived_record list \<Rightarrow> ustring \<Rightarrow> ustring list \<Rightarrow> 'a derived_record list" where
  "filtered_df df selected_sido selected_types =
     filter_types (filter_sido df selected_sido) selected_types"

section \<open>Key figures\<close>

definition total_accidents :: "'a derived_record list \<Rightarrow> int" where
  "total_accidents df = sum_list (map accident_count df)"

definition total_reduction :: "'a derived_record list \<Rightarrow> rat" where
  "total_reduction df = fsum (map predicted_reduction df)"

text \<open>
  \<open>(total_reduction / total_accidents * 100) if total_accidents > 0 else 0\<close>, with the
  division as an operation that can raise.
\<close>

definition reduction_pct :: "rat \<Rightarrow> int \<Rightarrow> py_error + rat" where
  "reduction_pct tr ta =
     (if 0 < ta
      then (case py_truediv tr (fl (of_int ta)) of
              Inl e \<Rightarrow> Inl e
            | Inr q \<Rightarrow> Inr (fl (q * 100)))
      else Inr 0)"

definition kpi :: "'a derived_record list \<Rightarrow> py_error + (int \<times> rat \<times> rat)" where
  "kpi df =
     (case reduction_pct (total_reduction df) (total_accidents df) of
        Inl e \<Rightarrow> Inl e
      | Inr pct \<Rightarrow> Inr (total_accidents df, total_reduction df, pct))"

section \<open>Loading\<close>

datatype encoding = CP949 | EUC_KR | UTF8

datatype load_error = FileNotFoundError | UnicodeDecodeError | ParserError

text \<open>
  \<open>pd.read_csv\<close> is the environment: a function from the encodings tried before and the
  encoding tried now to a table or an exception. \<open>load_data\<close> returns the encodings it
  tried, in order, and the table or the exception that leaves it. Each \<open>except:\<close>
  catches every exception of the attempt before it; the third attempt is not guarded.
\<close>

definition load_data :: "(encoding list \<Rightarrow> encoding \<Rightarrow> load_error + 't) \<Rightarrow> encoding list \<times> (load_error + 't)" where
  "load_data read_csv =
     (case read_csv [] CP949 of
        Inr df \<Rightarrow> ([CP949], Inr df)
      | Inl _ \<Rightarrow>
          (case read_csv [CP949] EUC_KR of
             Inr df \<Rightarrow> ([CP949, EUC_KR], Inr df)
           | Inl _ \<Rightarrow> ([CP949, EUC_KR, UTF8], read_csv [CP949, EUC_KR] UTF8)))"

text \<open>
  The start of the script: with a table the script goes on; FileNotFoundError is caught,
  reported with \<open>st.error\<close> and followed by \<open>st.stop()\<close>; any other exception is not
  caught and ends the run.
\<close>

datatype 't startup = Loaded 't | Stopped | Uncaught load_error

definition startup :: "(encoding list \<Rightarrow> encoding \<Rightarrow> load_error + 't) \<Rightarrow> 't startup" where
  "startup read_csv =
     (case snd (load_data read_csv) of
        Inr raw_df \<Rightarrow> Loaded raw_df
      | Inl e \<Rightarrow> (if e = FileNotFoundError then Stopped else Uncaught e))"

section \<open>Top regions\<close>







section \<open>Region names: properties\<close>

lemma strip_digits_append:
  assumes "\<forall>d\<in>set ds. is_digit d" and "t = [] \<or> \<not> is_digit (last t)"
  shows "strip_digits (t @ ds) = t"
proof -
  have "dropWhile is_digit (rev ds @ rev t) = dropWhile is_digit (rev t)"
    by (rule dropWhile_append2) (use assms(1) in auto)
  moreover have "dropWhile is_digit (rev t) = rev t"
    using assms(2) by (cases t rule: rev_cases) auto
  ultimately show ?thesis by (simp add: strip_digits_def)
qed

lemma not_digit_newline: "\<not> is_digit newline"
  by (simp add: is_digit_def newline_def nd_starts_def)

text \<open>
  Claim C4, as the code has it. Every string is \<open>t @ ds\<close> or \<open>t @ ds @ [newline]\<close> with
  \<open>ds\<close> a run of decimal digits and \<open>t\<close> not ending in a digit. \<open>clean_region\<close> removes the
  run \<open>ds\<close> in both shapes: at the end of the label, and also directly before a newline
  that ends the label. A label that ends in neither a digit nor a newline, the empty
  label and a label that is not a string are returned unchanged.
\<close>

theorem clean_region_spec:
  assumes "\<forall>d\<in>set ds. is_digit d" and "t = [] \<or> \<not> is_digit (last t)"
  shows "clean_region (NonStr v) = NonStr v \<and>
         clean_region (Str []) = Str [] \<and>
         clean_region (Str (t @ ds @ [newline])) = Str (t @ [newline]) \<and>
         ((ds = [] \<longrightarrow> t = [] \<or> last t \<noteq> newline) \<longrightarrow> clean_region (Str (t @ ds)) = Str t)"
proof (intro conjI impI)
  show "clean_region (NonStr v) = NonStr v" by simp
  show "clean_region (Str []) = Str []" by (simp add: re_sub_digits_def strip_digits_def)
  have "re_sub_digits ((t @ ds) @ [newline]) = strip_digits (t @ ds) @ [newline]"
    unfolding re_sub_digits_def by (simp del: append_assoc)
  then show "clean_region (Str (t @ ds @ [newline])) = Str (t @ [newline])"
    using assms by (simp add: strip_digits_append)
next
  assume n: "ds = [] \<longrightarrow> t = [] \<or> last t \<noteq> newline"
  have "t @ ds = [] \<or> last (t @ ds) \<noteq> newline"
  proof (cases "ds = []")
    case True
    then show ?thesis using n by auto
  next
    case False
    then have "is_digit (last (t @ ds))" using assms(1) by simp
    then show ?thesis using not_digit_newline by auto
  qed
  then have "re_sub_digits (t @ ds) = strip_digits (t @ ds)"
    by (auto simp: re_sub_digits_def)
  then show "clean_region (Str (t @ ds)) = Str t"
    using assms by (simp add: strip_digits_append)
qed

text \<open>
  The two labels of the specification: the first (nine code points and the digit 1)
  loses its digit, the second (no digit at its end) is unchanged.
\<close>

theorem clean_region_spec_witness:
  "is_digit 49 \<and>
   \<not> is_digit (last [49436, 50872, 53945, 48324, 49884, 32, 44053, 45224, 44396]) \<and>
   clean_region (Str ([49436, 50872, 53945, 48324, 49884, 32, 44053, 45224, 44396] @ [49]) :: unit label) =
     Str [49436, 50872, 53945, 48324, 49884, 32, 44053, 45224, 44396] \<and>
   \<not> is_digit (last [48512, 49328, 32, 54644, 50868, 45824, 44396]) \<and>
   clean_region (Str ([48512, 49328, 32, 54644, 50868, 45824, 44396] @ []) :: unit label) =
     Str [48512, 49328, 32, 54644, 50868, 45824, 44396]"
  using clean_region_spec [of "[49]" "[49436, 50872, 53945, 48324, 49884, 32, 44053, 45224, 44396]", where ?'a = unit]
    clean_region_spec [of "[]" "[48512, 49328, 32, 54644, 50868, 45824, 44396]", where ?'a = unit]
  by (simp add: is_digit_def nd_starts_def newline_def)

text \<open>
  Claim C4 as stated fails: the label \<open>A1\<close> followed by a newline has no digit at its
  end, and yet \<open>clean_region\<close> changes it (the digit before the final newline goes).
\<close>

theorem clean_region_newline_counterexample:
  "\<not> is_digit (last [65, 49, 10]) \<and>
   clean_region (Str [65, 49, 10] :: unit label) = Str [65, 10] \<and>
   clean_region (Str [65, 49, 10] :: unit label) \<noteq> Str [65, 49, 10]"
  by (simp add: re_sub_digits_def strip_digits_def newline_def is_digit_def nd_starts_def)

section \<open>Province: properties\<close>

lemma split_acc_cur:
  "cur \<noteq> [] \<Longrightarrow> \<exists>rest. split_acc cur s = (cur @ takeWhile (\<lambda>c. \<not> is_space c) s) # rest"
proof (induction s arbitrary: cur)
  case Nil
  then show ?case by simp
next
  case (Cons c cs)
  show ?case
  proof (cases "is_space c")
    case True
    then show ?thesis using Cons.prems by simp
  next
    case False
    have "cur @ [c] \<noteq> []" by simp
    from Cons.IH[OF this] obtain rest where
      "split_acc (cur @ [c]) cs = ((cur @ [c]) @ takeWhile (\<lambda>c. \<not> is_space c) cs) # rest"
      by blast
    then show ?thesis using False by simp
  qed
qed

lemma split_acc_all_space: "\<forall>c\<in>set s. is_space c \<Longrightarrow> split_acc [] s = []"
  by (induction s) auto

lemma split_acc_first:
  "\<not> (\<forall>c\<in>set s. is_space c) \<Longrightarrow>
   \<exists>rest. split_acc [] s = takeWhile (\<lambda>c. \<not> is_space c) (dropWhile is_space s) # rest"
proof (induction s)
  case Nil
  then show ?case by simp
next
  case (Cons c cs)
  show ?case
  proof (cases "is_space c")
    case True
    then have "\<not> (\<forall>c\<in>set cs. is_space c)" using Cons.prems by simp
    from Cons.IH[OF this] show ?thesis using True by simp
  next
    case False
    obtain rest where "split_acc [c] cs = ([c] @ takeWhile (\<lambda>c. \<not> is_space c) cs) # rest"
      using split_acc_cur[of "[c]" cs] by auto
    then show ?thesis using False by simp
  qed
qed

lemma province_Str:
  "province (Str s) = (if \<forall>c\<in>set s. is_space c then Inl IndexError
     else Inr (takeWhile (\<lambda>c. \<not> is_space c) (dropWhile is_space s)))"
proof (cases "\<forall>c\<in>set s. is_space c")
  case True
  then show ?thesis by (simp add: py_split_def split_acc_all_space)
next
  case False
  from split_acc_first[OF this] obtain rest where
    "split_acc [] s = takeWhile (\<lambda>c. \<not> is_space c) (dropWhile is_space s) # rest" by blast
  then show ?thesis using False by (simp add: py_split_def)
qed

text \<open>
  Claim C5. For a cleaned region that is a string, the province is its first token: the
  longest run of non-separators after the leading separators. When the string is empty
  or holds separators only, the indexing raises (Python's IndexError is the failure the
  specification calls MalformedRegion), and the exception leaves \<open>derive_row\<close>, so no
  derived row exists.
\<close>

theorem province_first_token:
  "province (Str s) =
     (if \<forall>c\<in>set s. is_space c then Inl IndexError
      else Inr (takeWhile (\<lambda>c. \<not> is_space c) (dropWhile is_space s))) \<and>
   (clean_region (region_label r) = Str s \<longrightarrow>
     (if \<forall>c\<in>set s. is_space c then derive_row r = Inl IndexError
      else \<exists>d. derive_row r = Inr d \<and>
             sido d = takeWhile (\<lambda>c. \<not> is_space c) (dropWhile is_space s)))"
proof -
  have "derive_row r = Inl IndexError"
    if "clean_region (region_label r) = Str s" "\<forall>c\<in>set s. is_space c"
    using that by (simp add: derive_row_def province_Str del: province.simps)
  moreover have "\<exists>d. derive_row r = Inr d \<and>
      sido d = takeWhile (\<lambda>c. \<not> is_space c) (dropWhile is_space s)"
    if "clean_region (region_label r) = Str s" "\<not> (\<forall>c\<in>set s. is_space c)"
    using that by (simp add: derive_row_def province_Str Let_def split: prod.splits del: province.simps)
  ultimately show ?thesis using province_Str[of s] by auto
qed

text \<open>
  The label of the specification (two words) has the first word as its province; a
  label of two blanks has none.
\<close>

theorem province_first_token_witness:
  "province (Str [49436, 50872, 53945, 48324, 49884, 32, 44053, 45224, 44396] :: unit label) =
     Inr [49436, 50872, 53945, 48324, 49884] \<and>
   is_space 32 \<and>
   province (Str [32, 32] :: unit label) = Inl IndexError \<and>
   clean_region (region_label \<lparr>region_label = (Str [32, 32] :: unit label), location_name = [],
      accident_type = [], accident_count = 1, latitude = None, longitude = None\<rparr>) = Str [32, 32] \<and>
   derive_row \<lparr>region_label = (Str [32, 32] :: unit label), location_name = [],
      accident_type = [], accident_count = 1, latitude = None, longitude = None\<rparr> = Inl IndexError"
  using province_first_token [of "[49436, 50872, 53945, 48324, 49884, 32, 44053, 45224, 44396]"
      "\<lparr>region_label = (Str [32, 32] :: unit label), location_name = [],
        accident_type = [], accident_count = 1, latitude = None, longitude = None\<rparr>"]
    province_first_token [of "[32, 32]"
      "\<lparr>region_label = (Str [32, 32] :: unit label), location_name = [],
        accident_type = [], accident_count = 1, latitude = None, longitude = None\<rparr>"]
  by (simp add: is_space_def re_sub_digits_def strip_digits_def newline_def is_digit_def
      nd_starts_def del: province.simps)

section \<open>Strategy table: properties\<close>

lemma keys_distinct:
  "distinct [school_zone_child, pedestrian_child, pedestrian_elderly, bicycle]"
  by (simp add: school_zone_child_def pedestrian_child_def pedestrian_elderly_def bicycle_def)

text \<open>
  Claim C3. The lookup returns the listed strategy and rate for each of the four keys
  and the general strategy with rate \<open>0.10\<close> for every other string; the rate is one of
  the four floats \<open>0.30\<close>, \<open>0.25\<close>, \<open>0.20\<close>, \<open>0.10\<close>; and a derived row carries exactly
  the strategy and the rate that the lookup returns for its accident type.
\<close>

theorem apply_strategy_table:
  "apply_strategy school_zone_child = (strategy_school_zone, fl (30 / 100)) \<and>
   apply_strategy pedestrian_child = (strategy_pedestrian_child, fl (25 / 100)) \<and>
   apply_strategy pedestrian_elderly = (strategy_pedestrian_elderly, fl (20 / 100)) \<and>
   apply_strategy bicycle = (strategy_bicycle, fl (25 / 100)) \<and>
   (t \<notin> {school_zone_child, pedestrian_child, pedestrian_elderly, bicycle} \<longrightarrow>
      apply_strategy t = (strategy_general, fl (10 / 100))) \<and>
   snd (apply_strategy t) \<in> {fl (30 / 100), fl (25 / 100), fl (20 / 100), fl (10 / 100)} \<and>
   (derive_row r = Inr d \<longrightarrow>
      (proposed_strategy d, reduction_rate d) = apply_strategy (accident_type r) \<and>
      reduction_rate d \<in> {fl (30 / 100), fl (25 / 100), fl (20 / 100), fl (10 / 100)})"
proof -
  have a: "apply_strategy school_zone_child = (strategy_school_zone, fl (30 / 100))"
    "apply_strategy pedestrian_child = (strategy_pedestrian_child, fl (25 / 100))"
    "apply_strategy pedestrian_elderly = (strategy_pedestrian_elderly, fl (20 / 100))"
    "apply_strategy bicycle = (strategy_bicycle, fl (25 / 100))"
    using keys_distinct by (auto simp: apply_strategy_def strategy_map_def)
  have b: "apply_strategy t = (strategy_general, fl (10 / 100))"
    if "t \<notin> {school_zone_child, pedestrian_child, pedestrian_elderly, bicycle}" for t
    using that by (simp add: apply_strategy_def strategy_map_def)
  have c: "snd (apply_strategy t) \<in> {fl (30 / 100), fl (25 / 100), fl (20 / 100), fl (10 / 100)}" for t
    by (simp add: apply_strategy_def strategy_map_def)
  have d: "(proposed_strategy d, reduction_rate d) = apply_strategy (accident_type r)"
    if "derive_row r = Inr d"
    using that by (auto simp: derive_row_def Let_def split: sum.splits prod.splits)
  have e: "reduction_rate d \<in> {fl (30 / 100), fl (25 / 100), fl (20 / 100), fl (10 / 100)}"
    if "derive_row r = Inr d"
    using d[OF that] c[of "accident_type r"] by (metis snd_conv)
  show ?thesis using a b c d e by blast
qed

text \<open>
  The category of the specification that is no key (two code points, \<open>other\<close>) gets the
  general strategy and the rate \<open>0.10\<close>, also in the derived row.
\<close>

theorem apply_strategy_table_witness:
  "[44592, 53440] \<notin> {school_zone_child, pedestrian_child, pedestrian_elderly, bicycle} \<and>
   apply_strategy [44592, 53440] = (strategy_general, fl (10 / 100)) \<and>
   derive_row \<lparr>region_label = (Str [65] :: unit label), location_name = [],
      accident_type = [44592, 53440], accident_count = 2, latitude = None, longitude = None\<rparr> =
     Inr \<lparr>region_label = Str [65], location_name = [], accident_type = [44592, 53440],
       accident_count = 2, latitude = None, longitude = None, region_clean = Str [65],
       sido = [65], proposed_strategy = strategy_general, reduction_rate = fl (10 / 100),
       predicted_reduction = fl (fl 2 * fl (10 / 100)),
       predicted_remaining = fl (fl 2 - fl (fl 2 * fl (10 / 100)))\<rparr> \<and>
   fl (10 / 100) \<in> {fl (30 / 100), fl (25 / 100), fl (20 / 100), fl (10 / 100)}"
  using apply_strategy_table [of "[44592, 53440]"
      "\<lparr>region_label = (Str [65] :: unit label), location_name = [],
        accident_type = [44592, 53440], accident_count = 2, latitude = None, longitude = None\<rparr>"
      "\<lparr>region_label = Str [65], location_name = [], accident_type = [44592, 53440],
        accident_count = 2, latitude = None, longitude = None, region_clean = Str [65],
        sido = [65], proposed_strategy = strategy_general, reduction_rate = fl (10 / 100),
        predicted_reduction = fl (fl 2 * fl (10 / 100)),
        predicted_remaining = fl (fl 2 - fl (fl 2 * fl (10 / 100)))\<rparr>"]
  by (simp add: Let_def derive_row_def re_sub_digits_def strip_digits_def newline_def
      is_digit_def nd_starts_def py_split_def is_space_def apply_strategy_def strategy_map_def
      school_zone_child_def pedestrian_child_def pedestrian_elderly_def bicycle_def)

section \<open>Filters: properties\<close>

text \<open>
  Claim C1, as the code has it. With no accident type selected the type filter is
  skipped: the result is the table filtered by province alone, and the whole table when
  the province is the entry for all provinces.
\<close>

theorem filter_empty_types:
  "filtered_df df selected_sido [] = filter_sido df selected_sido \<and>
   filtered_df df all_sido [] = df"
  by (simp add: filtered_df_def filter_types_def filter_sido_def)

text \<open>
  Claim C1 as stated fails: the table of one row (region \<open>A1\<close>, a bicycle accident)
  keeps its row under the empty selection of types, both for all provinces and for the
  province \<open>A\<close>.
\<close>

theorem filter_empty_types_counterexample:
  "map_sum id (\<lambda>df. (length (filtered_df df all_sido []), length (filtered_df df [65] [])))
     (preprocess_and_analyze
       [\<lparr>region_label = (Str [65, 49] :: unit label), location_name = [],
         accident_type = bicycle, accident_count = 1, latitude = None, longitude = None\<rparr>]) =
   Inr (1, 1)"
  by (simp add: Let_def preprocess_and_analyze_def derive_row_def re_sub_digits_def
      strip_digits_def newline_def is_digit_def nd_starts_def py_split_def is_space_def
      apply_strategy_def strategy_map_def school_zone_child_def pedestrian_child_def
      pedestrian_elderly_def bicycle_def filtered_df_def filter_types_def filter_sido_def
      all_sido_def)

section \<open>Loading: properties\<close>

text \<open>
  Claim C7. The encodings tried are \<open>cp949\<close>, then \<open>euc-kr\<close>, then \<open>utf-8\<close>, never more
  than these three; what \<open>load_data\<close> returns is the outcome of its last attempt, every
  attempt before the last has failed, and it fails exactly when all three attempts
  fail. The script goes on exactly when \<open>load_data\<close> returns a table; when the file is
  absent (every attempt raises FileNotFoundError) the script reports it and stops.
\<close>

theorem load_data_order:
  "fst (load_data rd) \<in> {[CP949], [CP949, EUC_KR], [CP949, EUC_KR, UTF8]} \<and>
   snd (load_data rd) = rd (butlast (fst (load_data rd))) (last (fst (load_data rd))) \<and>
   (\<forall>i. Suc i < length (fst (load_data rd)) \<longrightarrow>
        isl (rd (take i (fst (load_data rd))) (fst (load_data rd) ! i))) \<and>
   (isl (snd (load_data rd)) \<longleftrightarrow>
        isl (rd [] CP949) \<and> isl (rd [CP949] EUC_KR) \<and> isl (rd [CP949, EUC_KR] UTF8)) \<and>
   (\<forall>t. startup rd = Loaded t \<longleftrightarrow> snd (load_data rd) = Inr t) \<and>
   ((\<forall>h enc. rd h enc = Inl FileNotFoundError) \<longrightarrow> startup rd = Stopped)"
proof -
  consider (a) t where "rd [] CP949 = Inr t"
    | (b) e t where "rd [] CP949 = Inl e" "rd [CP949] EUC_KR = Inr t"
    | (c) e e' where "rd [] CP949 = Inl e" "rd [CP949] EUC_KR = Inl e'"
    by (metis sum.exhaust)
  then show ?thesis
  proof cases
    case a
    then have l: "load_data rd = ([CP949], Inr t)" by (simp add: load_data_def)
    have "rd [] CP949 \<noteq> Inl FileNotFoundError" using a by simp
    then have n: "\<not> (\<forall>h enc. rd h enc = Inl FileNotFoundError)" by blast
    show ?thesis unfolding l using a n by (auto simp: startup_def l)
  next
    case b
    then have l: "load_data rd = ([CP949, EUC_KR], Inr t)" by (simp add: load_data_def)
    have "rd [CP949] EUC_KR \<noteq> Inl FileNotFoundError" using b by simp
    then have n: "\<not> (\<forall>h enc. rd h enc = Inl FileNotFoundError)" by blast
    show ?thesis unfolding l using b n by (auto simp: startup_def l less_Suc_eq)
  next
    case c
    then have l: "load_data rd = ([CP949, EUC_KR, UTF8], rd [CP949, EUC_KR] UTF8)"
      by (simp add: load_data_def)
    show ?thesis unfolding l using c
      by (auto simp: startup_def l less_Suc_eq split: sum.splits)
  qed
qed

text \<open>
  A file that only reads as \<open>utf-8\<close> is loaded at the third attempt; an absent file
  stops the script.
\<close>

theorem load_data_order_witness:
  "fst (load_data (\<lambda>h enc. if enc = UTF8 then Inr (7::nat) else Inl UnicodeDecodeError)) =
     [CP949, EUC_KR, UTF8] \<and>
   startup (\<lambda>h enc. if enc = UTF8 then Inr (7::nat) else Inl UnicodeDecodeError) = Loaded 7 \<and>
   startup (\<lambda>h enc. (Inl FileNotFoundError :: load_error + nat)) = Stopped \<and>
   startup (\<lambda>h enc. (Inl UnicodeDecodeError :: load_error + nat)) = Uncaught UnicodeDecodeError"
  using load_data_order [of "\<lambda>h enc. if enc = UTF8 then Inr (7::nat) else Inl UnicodeDecodeError"]
    load_data_order [of "\<lambda>h enc. (Inl FileNotFoundError :: load_error + nat)"]
  by (simp add: load_data_def startup_def)

section \<open>Top regions: properties\<close>








section \<open>Float arithmetic: properties\<close>

lemma powi_pos: "(0::rat) < 2 powi e"
  by (simp add: zero_less_power_int)

lemma powi_mono: "a \<le> b \<Longrightarrow> (2::rat) powi a \<le> 2 powi b"
  by (rule power_int_increasing) simp_all

lemma powi_strict_mono: "a < b \<Longrightarrow> (2::rat) powi a < 2 powi b"
  by (rule power_int_strict_increasing) simp_all

lemma powi_Suc: "(2::rat) powi (e + 1) = 2 * 2 powi e"
  by (simp add: power_int_add)

lemma powi_inv: "1 / (2::rat) powi k = 2 powi (- k)"
  by (simp add: power_int_minus divide_inverse)

lemma ilog2_bounds:
  assumes "0 < x"
  shows "2 powi (ilog2 x) \<le> x \<and> x < 2 powi (ilog2 x + 1)"
proof (cases "1 \<le> x")
  case True
  define n where "n = \<lfloor>x\<rfloor>"
  have n1: "1 \<le> n" using True by (simp add: n_def le_floor_iff)
  then have b: "2 ^ nat (bitlen n - 1) \<le> n" "n < 2 ^ nat (bitlen n)"
    using bitlen_bounds[of n] by auto
  have bl: "1 \<le> bitlen n" using n1 by (simp add: bitlen_def floorlog_def)
  have e: "ilog2 x = bitlen n - 1" using True by (simp add: ilog2_def n_def)
  have "(2::rat) powi (bitlen n - 1) = 2 ^ nat (bitlen n - 1)"
    using bl by (simp add: power_int_def)
  also have "\<dots> = of_int (2 ^ nat (bitlen n - 1))" by simp
  also have "\<dots> \<le> of_int n" using b(1) by (simp only: of_int_le_iff)
  also have "\<dots> \<le> x" by (simp add: n_def)
  finally have lo: "2 powi (ilog2 x) \<le> x" by (simp add: e)
  have "x < of_int (n + 1)" using floor_correct[of x] by (simp add: n_def)
  also have "\<dots> \<le> of_int (2 ^ nat (bitlen n))"
  proof -
    have "n + 1 \<le> 2 ^ nat (bitlen n)" using b(2) by linarith
    then show ?thesis by (simp only: of_int_le_iff)
  qed
  also have "\<dots> = (2::rat) powi (bitlen n)" using bl by (simp add: power_int_def)
  finally have "x < 2 powi (ilog2 x + 1)" by (simp add: e)
  with lo show ?thesis by simp
next
  case False
  define y where "y = 1 / x"
  have y1: "1 < y" using False assms by (simp add: y_def)
  define m where "m = \<lceil>y\<rceil> - 1"
  have m1: "1 \<le> m" using y1 by (simp add: m_def less_ceiling_iff)
  then have b: "2 ^ nat (bitlen m - 1) \<le> m" "m < 2 ^ nat (bitlen m)"
    using bitlen_bounds[of m] by auto
  have bl: "1 \<le> bitlen m" using m1 by (simp add: bitlen_def floorlog_def)
  have e: "ilog2 x = - bitlen m" using False by (simp add: ilog2_def m_def y_def)
  have "y \<le> of_int (m + 1)" by (simp add: m_def)
  also have "\<dots> \<le> of_int (2 ^ nat (bitlen m))"
  proof -
    have "m + 1 \<le> 2 ^ nat (bitlen m)" using b(2) by linarith
    then show ?thesis by (simp only: of_int_le_iff)
  qed
  also have "\<dots> = (2::rat) powi (bitlen m)" using bl by (simp add: power_int_def)
  finally have "y \<le> 2 powi (bitlen m)" .
  then have "1 / 2 powi (bitlen m) \<le> 1 / y"
    using y1 by (intro divide_left_mono) (simp_all add: powi_pos)
  then have lo: "2 powi (ilog2 x) \<le> x"
    using assms by (simp add: e y_def power_int_minus field_simps)
  have "(2::rat) powi (bitlen m - 1) = of_int (2 ^ nat (bitlen m - 1))"
    using bl by (simp add: power_int_def)
  also have "\<dots> \<le> of_int m" using b(1) by (simp only: of_int_le_iff)
  also have "\<dots> < y" using ceiling_correct[of y] by (simp add: m_def)
  finally have "2 powi (bitlen m - 1) < y" .
  then have "1 / y < 1 / 2 powi (bitlen m - 1)"
    using y1 powi_pos[of "bitlen m - 1"] by (intro divide_strict_left_mono) simp_all
  then have "x < 2 powi (ilog2 x + 1)"
    using assms by (simp add: e y_def powi_inv)
  with lo show ?thesis by simp
qed

lemma ilog2_unique:
  assumes "2 powi e \<le> x" "x < 2 powi (e + 1)"
  shows "ilog2 x = e"
proof -
  have x: "0 < x" using assms(1) powi_pos[of e] by linarith
  note b = ilog2_bounds[OF x]
  have "\<not> ilog2 x < e"
  proof
    assume "ilog2 x < e"
    then have "ilog2 x + 1 \<le> e" by simp
    then have "(2::rat) powi (ilog2 x + 1) \<le> 2 powi e" by (rule powi_mono)
    then show False using b assms by linarith
  qed
  moreover have "\<not> e < ilog2 x"
  proof
    assume "e < ilog2 x"
    then have "e + 1 \<le> ilog2 x" by simp
    then have "(2::rat) powi (e + 1) \<le> 2 powi (ilog2 x)" by (rule powi_mono)
    then show False using b assms by linarith
  qed
  ultimately show ?thesis by linarith
qed

lemma fl_pos_eq:
  assumes "2 ^ 52 * 2 powi e \<le> x" "x < 2 ^ 53 * 2 powi e"
  shows "fl x = of_int (rne (x / 2 powi e)) * 2 powi e"
proof -
  have p: "(2::rat) ^ 52 * 2 powi e = 2 powi (e + 52)" "(2::rat) ^ 53 * 2 powi e = 2 powi (e + 52 + 1)"
    by (simp_all add: power_int_add)
  have x: "0 < x" using assms(1) powi_pos[of "e + 52"] unfolding p by linarith
  have "ilog2 x = e + 52" using assms unfolding p by (rule ilog2_unique)
  then show ?thesis using x by (simp add: fl_def)
qed

lemma fl_neg: "fl (- x) = - fl x"
  by (simp add: fl_def Let_def)

lemma rne_near:
  assumes "\<bar>m - of_int k\<bar> < 1 / 2"
  shows "rne m = k"
proof (cases "of_int k \<le> m")
  case True
  then have f: "\<lfloor>m\<rfloor> = k" using assms by (intro floor_unique) (auto simp: abs_less_iff)
  show ?thesis using assms True by (simp add: rne_def Let_def f abs_less_iff)
next
  case False
  then have f: "\<lfloor>m\<rfloor> = k - 1" using assms by (intro floor_unique) (auto simp: abs_less_iff)
  show ?thesis using assms False by (simp add: rne_def Let_def f abs_less_iff)
qed

lemma rne_tie_up:
  assumes "even k"
  shows "rne (of_int k - 1 / 2) = k"
proof -
  have f: "\<lfloor>(of_int k - 1 / 2 :: rat)\<rfloor> = k - 1" by (intro floor_unique) auto
  show ?thesis using assms unfolding rne_def Let_def f by simp
qed

lemma rne_tie_down:
  assumes "even k"
  shows "rne (of_int k + 1 / 2) = k"
proof -
  have f: "\<lfloor>(of_int k + 1 / 2 :: rat)\<rfloor> = k" by (intro floor_unique) auto
  show ?thesis using assms unfolding rne_def Let_def f by simp
qed

lemma rne_of_int: "rne (of_int k) = k"
  by (rule rne_near) simp

lemma rne_err: "\<bar>of_int (rne m) - m\<bar> \<le> 1 / 2"
proof -
  have "of_int \<lfloor>m\<rfloor> \<le> m" "m < of_int \<lfloor>m\<rfloor> + 1" using floor_correct[of m] by auto
  then show ?thesis by (auto simp: rne_def Let_def abs_le_iff)
qed

lemma fl_near:
  assumes "2 ^ 52 * 2 powi e \<le> x" "x < 2 ^ 53 * 2 powi e" "\<bar>x / 2 powi e - of_int k\<bar> < 1 / 2"
  shows "fl x = of_int k * 2 powi e"
  using fl_pos_eq[OF assms(1,2)] rne_near[OF assms(3)] by simp

lemma rne_mono:
  assumes "m \<le> m'"
  shows "rne m \<le> rne m'"
proof (rule ccontr)
  assume "\<not> rne m \<le> rne m'"
  then have "rne m' + 1 \<le> rne m" by simp
  then have a: "(of_int (rne m') :: rat) + 1 \<le> of_int (rne m)"
    by (metis of_int_1 of_int_add of_int_le_iff)
  have "of_int (rne m) - 1 / 2 \<le> m" "m' \<le> of_int (rne m') + 1 / 2"
    using rne_err[of m] rne_err[of m'] by linarith+
  then have "m = m'" using a assms by linarith
  then show False using \<open>\<not> rne m \<le> rne m'\<close> by simp
qed

lemma rne_ge: "of_int k \<le> m \<Longrightarrow> k \<le> rne m"
  using rne_mono[of "of_int k" m] by (simp add: rne_of_int)

lemma rne_le: "m \<le> of_int k \<Longrightarrow> rne m \<le> k"
  using rne_mono[of m "of_int k"] by (simp add: rne_of_int)

lemma scaled_bounds:
  assumes "0 < x"
  shows "2 ^ 52 \<le> x / 2 powi (ilog2 x - 52)" "x / 2 powi (ilog2 x - 52) < 2 ^ 53"
proof -
  have s: "(2::rat) powi (ilog2 x) = 2 ^ 52 * 2 powi (ilog2 x - 52)"
    "(2::rat) powi (ilog2 x + 1) = 2 ^ 53 * 2 powi (ilog2 x - 52)"
    by (simp_all add: power_int_diff power_int_add)
  have p: "(0::rat) < 2 powi (ilog2 x - 52)" by (rule powi_pos)
  show "2 ^ 52 \<le> x / 2 powi (ilog2 x - 52)"
    using ilog2_bounds[OF assms] p unfolding s by (simp add: pos_le_divide_eq)
  show "x / 2 powi (ilog2 x - 52) < 2 ^ 53"
    using ilog2_bounds[OF assms] p unfolding s by (simp add: pos_divide_less_eq)
qed

lemma fl_pos_def:
  assumes "0 < x"
  shows "fl x = of_int (rne (x / 2 powi (ilog2 x - 52))) * 2 powi (ilog2 x - 52)"
  using assms by (simp add: fl_def Let_def)

lemma fl_bounds:
  assumes "0 < x"
  shows "2 powi (ilog2 x) \<le> fl x" "fl x \<le> 2 powi (ilog2 x + 1)"
proof -
  define s :: rat where "s = 2 powi (ilog2 x - 52)"
  have p: "0 < s" unfolding s_def by (rule powi_pos)
  have s: "(2::rat) powi (ilog2 x) = 2 ^ 52 * s" "(2::rat) powi (ilog2 x + 1) = 2 ^ 53 * s"
    by (simp_all add: power_int_diff power_int_add s_def)
  have b: "(of_int (2 ^ 52) :: rat) \<le> x / s" "x / s \<le> of_int (2 ^ 53)"
    using scaled_bounds[OF assms] by (simp_all add: s_def)
  have "2 ^ 52 \<le> rne (x / s)" "rne (x / s) \<le> 2 ^ 53"
    using rne_ge[OF b(1)] rne_le[OF b(2)] by simp_all
  then have "(2::rat) ^ 52 \<le> of_int (rne (x / s))" "of_int (rne (x / s)) \<le> (2::rat) ^ 53"
    by (metis of_int_le_iff of_int_numeral of_int_power)+
  then show "2 powi (ilog2 x) \<le> fl x" "fl x \<le> 2 powi (ilog2 x + 1)"
    using p unfolding s fl_pos_def[OF assms] s_def[symmetric] by simp_all
qed

lemma fl_pos: "0 < x \<Longrightarrow> 0 < fl x"
  using fl_bounds(1)[of x] powi_pos[of "ilog2 x"] by linarith

lemma fl_zero: "fl 0 = 0"
  by (simp add: fl_def)

lemma fl_mono_pos:
  assumes "0 < x" "x \<le> y"
  shows "fl x \<le> fl y"
proof -
  have y: "0 < y" using assms by simp
  have "2 powi (ilog2 x) \<le> x" "y < 2 powi (ilog2 y + 1)"
    using ilog2_bounds[OF assms(1)] ilog2_bounds[OF y] by simp_all
  then have "(2::rat) powi (ilog2 x) < 2 powi (ilog2 y + 1)" using assms(2) by linarith
  then have "ilog2 x < ilog2 y + 1"
    by (metis powi_mono not_le)
  then consider "ilog2 x = ilog2 y" | "ilog2 x + 1 \<le> ilog2 y" by linarith
  then show ?thesis
  proof cases
    case 1
    define s :: rat where "s = 2 powi (ilog2 x - 52)"
    have p: "0 < s" unfolding s_def by (rule powi_pos)
    have "x / s \<le> y / s" using assms(2) p by (simp add: divide_right_mono)
    then have "rne (x / s) \<le> rne (y / s)" by (rule rne_mono)
    then have "(of_int (rne (x / s)) :: rat) \<le> of_int (rne (y / s))" by simp
    then have "of_int (rne (x / s)) * s \<le> of_int (rne (y / s)) * s"
      using p by (simp add: mult_right_mono)
    then show ?thesis
      unfolding fl_pos_def[OF assms(1)] fl_pos_def[OF y] 1[symmetric] s_def[symmetric] .
  next
    case 2
    have "fl x \<le> 2 powi (ilog2 x + 1)" by (rule fl_bounds(2)[OF assms(1)])
    also have "\<dots> \<le> 2 powi (ilog2 y)" using 2 by (rule powi_mono)
    also have "\<dots> \<le> fl y" by (rule fl_bounds(1)[OF y])
    finally show ?thesis .
  qed
qed

lemma fl_mono:
  assumes "x \<le> y"
  shows "fl x \<le> fl y"
proof -
  consider "0 < x" | "x \<le> 0" "0 \<le> y" | "y < 0" using assms by linarith
  then show ?thesis
  proof cases
    case 1
    then show ?thesis using assms by (rule fl_mono_pos)
  next
    case 2
    have "fl x \<le> 0"
    proof (cases "x = 0")
      case True then show ?thesis by (simp add: fl_zero)
    next
      case False
      then have "0 < fl (- x)" using 2 by (intro fl_pos) simp
      then show ?thesis by (simp add: fl_neg)
    qed
    moreover have "0 \<le> fl y"
    proof (cases "y = 0")
      case True then show ?thesis by (simp add: fl_zero)
    next
      case False
      then have "0 < fl y" using 2 by (intro fl_pos) simp
      then show ?thesis by simp
    qed
    ultimately show ?thesis by linarith
  next
    case 3
    then have "fl (- y) \<le> fl (- x)" using assms by (intro fl_mono_pos) simp_all
    then show ?thesis by (simp add: fl_neg)
  qed
qed

lemma fl_exact_pos:
  assumes "0 < k" "k < 2 ^ 53"
  shows "fl (of_int k * 2 powi e) = of_int k * 2 powi e"
proof -
  define b where "b = ilog2 (of_int k)"
  have kp: "(0::rat) < of_int k" using assms(1) by simp
  have bb: "2 powi b \<le> (of_int k :: rat)" "(of_int k :: rat) < 2 powi (b + 1)"
    using ilog2_bounds[OF kp] by (simp_all add: b_def)
  have "(of_int k :: rat) < of_int (2 ^ 53)" using assms(2) by (simp only: of_int_less_iff)
  then have "(2::rat) powi b < 2 powi 53" using bb(1) by simp
  then have b52: "b \<le> 52" by (smt (verit) powi_mono not_le)
  define x :: rat where "x = of_int k * 2 powi e"
  have pe: "(0::rat) < 2 powi e" by (rule powi_pos)
  have "2 powi (b + e) \<le> x" "x < 2 powi (b + e + 1)"
    using bb pe by (simp_all add: x_def power_int_add mult_right_mono)
  then have il: "ilog2 x = b + e" by (rule ilog2_unique)
  have xp: "0 < x" using kp pe by (simp add: x_def)
  have "x / 2 powi (b + e - 52) = of_int k * 2 powi (52 - b)"
    by (simp add: x_def power_int_diff power_int_add)
  also have "\<dots> = of_int k * 2 ^ nat (52 - b)" using b52 by (simp add: power_int_def)
  also have "\<dots> = of_int (k * 2 ^ nat (52 - b))" by simp
  finally have m: "x / 2 powi (b + e - 52) = of_int (k * 2 ^ nat (52 - b))" .
  have "fl x = of_int (k * 2 ^ nat (52 - b)) * 2 powi (b + e - 52)"
    unfolding fl_pos_def[OF xp] il m rne_of_int ..
  also have "\<dots> = x" using m[symmetric] powi_pos[of "b + e - 52"] by simp
  finally show ?thesis by (simp add: x_def)
qed

lemma fl_exact:
  assumes "\<bar>k\<bar> < 2 ^ 53"
  shows "fl (of_int k * 2 powi e) = of_int k * 2 powi e"
proof -
  consider "0 < k" | "k = 0" | "k < 0" by linarith
  then show ?thesis
  proof cases
    case 1
    then show ?thesis using assms by (intro fl_exact_pos) simp_all
  next
    case 2
    then show ?thesis by (simp add: fl_zero)
  next
    case 3
    then have "fl (of_int (- k) * 2 powi e) = of_int (- k) * 2 powi e"
      using assms by (intro fl_exact_pos) simp_all
    then show ?thesis using fl_neg[of "of_int k * 2 powi e"] by simp
  qed
qed

lemma fl_of_int:
  assumes "\<bar>n\<bar> < 2 ^ 53"
  shows "fl (of_int n) = of_int n"
  using fl_exact[OF assms, of 0] by simp

lemma rate_values:
  "fl (3 / 10) = 5404319552844595 / 18014398509481984"
  "fl (1 / 4) = 1 / 4"
  "fl (1 / 5) = 3602879701896397 / 18014398509481984"
  "fl (1 / 10) = 3602879701896397 / 36028797018963968"
proof -
  show "fl (3 / 10) = 5404319552844595 / 18014398509481984"
    using fl_near[of "-54" "3/10" 5404319552844595] by (simp add: power_int_minus)
  show "fl (1 / 4) = 1 / 4"
    using fl_near[of "-54" "1/4" 4503599627370496] by (simp add: power_int_minus)
  show "fl (1 / 5) = 3602879701896397 / 18014398509481984"
    using fl_near[of "-55" "1/5" 7205759403792794] by (simp add: power_int_minus)
  show "fl (1 / 10) = 3602879701896397 / 36028797018963968"
    using fl_near[of "-56" "1/10" 7205759403792794] by (simp add: power_int_minus)
qed

lemma fl_numeral: "\<bar>numeral w :: int\<bar> < 2 ^ 53 \<Longrightarrow> fl (numeral w) = numeral w"
  using fl_of_int[of "numeral w"] by simp

lemma fl_one: "fl 1 = 1"
  using fl_of_int[of 1] by simp

lemma fl_scenario_product: "fl (27021597764222975 / 9007199254740992) = 3"
  using fl_near[of "-51" "10 * (5404319552844595 / 18014398509481984)" 6755399441055744]
  by (simp add: power_int_minus)

lemma fl_scenario_quotient: "fl (2 / 7) = 2573485501354569 / 9007199254740992"
  using fl_near[of "-54" "4 / 14" 5146971002709138] by (simp add: power_int_minus)

lemma fl_scenario_percent: "fl (64337137533864225 / 2251799813685248) = 2010535547933257 / 70368744177664"
  using fl_near[of "-48" "2573485501354569 / 9007199254740992 * 100" 8042142191733028]
  by (simp add: power_int_minus)

section \<open>Key figures: properties\<close>

text \<open>
  Claim C6. With a positive total of accidents the percentage is the float quotient of
  the two totals times 100; with a total that is not positive, so also for the empty
  table, it is 0 and no division takes place. Neither \<open>reduction_pct\<close> nor \<open>kpi\<close> ever
  returns an error.
\<close>

theorem reduction_pct_guarded:
  "(0 < ta \<longrightarrow> reduction_pct tr ta = Inr (fl (fl (tr / fl (of_int ta)) * 100))) \<and>
   (ta = 0 \<longrightarrow> reduction_pct tr ta = Inr 0) \<and>
   reduction_pct tr ta \<noteq> Inl e \<and>
   kpi df = Inr (total_accidents df, total_reduction df,
     if 0 < total_accidents df
     then fl (fl (total_reduction df / fl (of_int (total_accidents df))) * 100) else 0) \<and>
   kpi [] = Inr (0, 0, 0)"
proof -
  have nz: "fl (of_int ta) \<noteq> 0" if "0 < ta" for ta :: int
    using fl_pos[of "of_int ta"] that by simp
  have a: "reduction_pct tr ta = Inr (fl (fl (tr / fl (of_int ta)) * 100))" if "0 < ta" for tr ta
    using that nz[OF that] by (simp add: reduction_pct_def py_truediv_def)
  have b: "reduction_pct tr ta = Inr 0" if "\<not> 0 < ta" for tr ta
    using that by (simp add: reduction_pct_def)
  have c: "reduction_pct tr ta \<noteq> Inl e"
    using a[of ta tr] b[of ta tr] by (cases "0 < ta") simp_all
  have d: "kpi df = Inr (total_accidents df, total_reduction df,
     if 0 < total_accidents df
     then fl (fl (total_reduction df / fl (of_int (total_accidents df))) * 100) else 0)"
    using a[of "total_accidents df" "total_reduction df"] b[of "total_accidents df" "total_reduction df"]
    by (cases "0 < total_accidents df") (simp_all add: kpi_def)
  have e: "kpi [] = Inr (0, 0, 0)"
    by (simp add: kpi_def total_accidents_def total_reduction_def fsum_def reduction_pct_def)
  show ?thesis using a b c d e by simp
qed

text \<open>The totals 4 and 14, and the totals 0 and 0 of the empty table.\<close>

theorem reduction_pct_guarded_witness:
  "(0::int) < 14 \<and> reduction_pct 4 14 = Inr (fl (fl (4 / fl 14) * 100)) \<and>
   reduction_pct 0 0 = Inr 0"
  using reduction_pct_guarded [where ta = 14 and tr = 4 and e = ZeroDivisionError
      and df = "[] :: unit derived_record list"]
    reduction_pct_guarded [where ta = 0 and tr = 0 and e = ZeroDivisionError
      and df = "[] :: unit derived_record list"]
  by auto

section \<open>The scenario of two records\<close>

lemma scenario_derived:
  "preprocess_and_analyze
     [\<lparr>region_label = (Str [65, 49884, 32, 49] :: unit label), location_name = [],
        accident_type = school_zone_child, accident_count = 10, latitude = None, longitude = None\<rparr>,
      \<lparr>region_label = Str [65, 49884, 32, 50], location_name = [],
        accident_type = bicycle, accident_count = 4, latitude = None, longitude = None\<rparr>] =
   Inr [\<lparr>region_label = Str [65, 49884, 32, 49], location_name = [],
        accident_type = school_zone_child, accident_count = 10, latitude = None, longitude = None,
        region_clean = Str [65, 49884, 32], sido = [65, 49884],
        proposed_strategy = strategy_school_zone, reduction_rate = 5404319552844595 / 18014398509481984,
        predicted_reduction = 3, predicted_remaining = 7\<rparr>,
      \<lparr>region_label = Str [65, 49884, 32, 50], location_name = [],
        accident_type = bicycle, accident_count = 4, latitude = None, longitude = None,
        region_clean = Str [65, 49884, 32], sido = [65, 49884],
        proposed_strategy = strategy_bicycle, reduction_rate = 1 / 4,
        predicted_reduction = 1, predicted_remaining = 3\<rparr>]"
proof -
  have a: "apply_strategy school_zone_child = (strategy_school_zone, 5404319552844595 / 18014398509481984)"
    "apply_strategy bicycle = (strategy_bicycle, 1 / 4)"
    using keys_distinct by (auto simp: apply_strategy_def strategy_map_def rate_values)
  show ?thesis
    by (simp add: Let_def preprocess_and_analyze_def derive_row_def re_sub_digits_def
      strip_digits_def newline_def is_digit_def nd_starts_def py_split_def is_space_def
      a fl_numeral fl_one fl_scenario_product)
qed

text \<open>
  Claim C9. The table of the two records (region \<open>A\<close>, U+C2DC, blank, 1 with the
  school-zone type and the count 10; the same region with 2, the bicycle type and the
  count 4), with all provinces and the default selection of all types, has the total
  14, the predicted reduction 4.0 and the percentage 28.57142857142857 (the float
  shown), which lies between 28.55 and 28.65 and so is 28.6 at one decimal.
\<close>

theorem scenario_kpi:
  "(case preprocess_and_analyze
     [\<lparr>region_label = (Str [65, 49884, 32, 49] :: unit label), location_name = [],
        accident_type = school_zone_child, accident_count = 10, latitude = None, longitude = None\<rparr>,
      \<lparr>region_label = Str [65, 49884, 32, 50], location_name = [],
        accident_type = bicycle, accident_count = 4, latitude = None, longitude = None\<rparr>] of
      Inl e \<Rightarrow> Inl e
    | Inr df \<Rightarrow> kpi (filtered_df df all_sido (type_list (filter_sido df all_sido)))) =
   Inr (14, 4, 2010535547933257 / 70368744177664) \<and>
   (2855 / 100 :: rat) \<le> 2010535547933257 / 70368744177664 \<and>
   (2010535547933257 / 70368744177664 :: rat) < 2865 / 100"
  unfolding scenario_derived
  by (simp add: kpi_def filtered_df_def filter_sido_def filter_types_def type_list_def
      total_accidents_def total_reduction_def fsum_def reduction_pct_def py_truediv_def
      fl_numeral fl_one fl_scenario_quotient fl_scenario_percent school_zone_child_def
      bicycle_def)

end
